theory Spec2Isabelle
  imports Main "HOL-Library.Word"
begin

section \<open>The Go library functions the bot calls\<close>

text \<open>
  A Go string is a sequence of bytes; it is modelled as a \<open>string\<close> (a list of 8-bit
  characters). The library functions below are the ones \<open>parseBootstrapEnv\<close> and the
  message handler call, each with the behaviour the Go documentation gives it.
\<close>

subsection \<open>strings.TrimSpace\<close>

text \<open>
  \<open>strings.TrimSpace\<close> removes all leading and all trailing white space, as defined by
  Unicode, from a UTF-8 string. The white space code points are U+0009..U+000D, U+0020,
  U+0085, U+00A0, U+1680, U+2000..U+200A, U+2028, U+2029, U+202F, U+205F and U+3000;
  \<open>unicodeSpaces\<close> lists their UTF-8 encodings. A byte sequence that is not one of these
  encodings decodes to a code point that is not white space (or to the replacement
  character), so trimming stops there.
\<close>

definition unicodeSpaces :: "string list" where
  "unicodeSpaces =
     [[CHR 0x09], [CHR 0x0A], [CHR 0x0B], [CHR 0x0C], [CHR 0x0D], [CHR 0x20],
      [CHR 0xC2, CHR 0x85], [CHR 0xC2, CHR 0xA0],
      [CHR 0xE1, CHR 0x9A, CHR 0x80],
      [CHR 0xE2, CHR 0x80, CHR 0x80], [CHR 0xE2, CHR 0x80, CHR 0x81],
      [CHR 0xE2, CHR 0x80, CHR 0x82], [CHR 0xE2, CHR 0x80, CHR 0x83],
      [CHR 0xE2, CHR 0x80, CHR 0x84], [CHR 0xE2, CHR 0x80, CHR 0x85],
      [CHR 0xE2, CHR 0x80, CHR 0x86], [CHR 0xE2, CHR 0x80, CHR 0x87],
      [CHR 0xE2, CHR 0x80, CHR 0x88], [CHR 0xE2, CHR 0x80, CHR 0x89],
      [CHR 0xE2, CHR 0x80, CHR 0x8A],
      [CHR 0xE2, CHR 0x80, CHR 0xA8], [CHR 0xE2, CHR 0x80, CHR 0xA9],
      [CHR 0xE2, CHR 0x80, CHR 0xAF],
      [CHR 0xE2, CHR 0x81, CHR 0x9F],
      [CHR 0xE3, CHR 0x80, CHR 0x80]]"

text \<open>Removing, again and again, the member of a table that the string starts with.\<close>

function stripPrefixes :: "string list \<Rightarrow> string \<Rightarrow> string" where
  "stripPrefixes ws s =
     (case find (\<lambda>w. w \<noteq> [] \<and> take (length w) s = w) ws of
        None \<Rightarrow> s
      | Some w \<Rightarrow> stripPrefixes ws (drop (length w) s))"
  by pat_completeness auto
termination
proof (relation "measure (\<lambda>(ws, s). length s)")
  show "wf (measure (\<lambda>(ws, s). length s))" by simp
next
  fix ws :: "string list" and s w :: string
  assume "find (\<lambda>w. w \<noteq> [] \<and> take (length w) s = w) ws = Some w"
  then have "w \<noteq> []" and "take (length w) s = w"
    by (auto simp: find_Some_iff)
  then have "s \<noteq> []" by auto
  with \<open>w \<noteq> []\<close> show "((ws, drop (length w) s), (ws, s)) \<in> measure (\<lambda>(ws, s). length s)"
    by simp
qed

declare stripPrefixes.simps [simp del]

definition TrimLeft :: "string \<Rightarrow> string" where
  "TrimLeft s = stripPrefixes unicodeSpaces s"

definition TrimRight :: "string \<Rightarrow> string" where
  "TrimRight s = rev (stripPrefixes (map rev unicodeSpaces) (rev s))"

definition TrimSpace :: "string \<Rightarrow> string" where
  "TrimSpace s = TrimRight (TrimLeft s)"

subsection \<open>strings.Split, strings.Join, strings.ReplaceAll\<close>

text \<open>
  \<open>strings.Split(s, sep)\<close> for a separator of one byte, which is how the parser calls it
  (\<open>","\<close> and \<open>":"\<close>): the fields between the separators, one more than there are
  separators, so that the empty string gives one empty field.
\<close>

fun Split :: "string \<Rightarrow> char \<Rightarrow> string list" where
  "Split [] sep = [[]]"
| "Split (c # cs) sep =
     (if c = sep then [] # Split cs sep
      else (case Split cs sep of
              [] \<Rightarrow> [[c]]
            | f # fs \<Rightarrow> (c # f) # fs))"

fun Join :: "string list \<Rightarrow> string \<Rightarrow> string" where
  "Join [] sep = []"
| "Join [e] sep = e"
| "Join (e # f # es) sep = e @ sep @ Join (f # es) sep"

text \<open>\<open>strings.ReplaceAll(s, old, new)\<close> for \<open>old\<close> of one byte.\<close>

definition ReplaceAll :: "string \<Rightarrow> char \<Rightarrow> string \<Rightarrow> string" where
  "ReplaceAll s old new = concat (map (\<lambda>c. if c = old then new else [c]) s)"

subsection \<open>strconv.ParseUint\<close>

datatype NumError = ErrSyntax | ErrRange | ErrBase | ErrBitSize

text \<open>
  The value of a digit byte: \<open>'0'..'9'\<close>, then letters of either case from 10 on.
  \<open>lower(c)\<close> of the Go source is \<open>c | 0x20\<close>, which lands in \<open>'a'..'z'\<close> exactly
  for the letters.
\<close>

definition digitVal :: "char \<Rightarrow> nat option" where
  "digitVal c =
     (let n = of_char c :: nat in
      if 48 \<le> n \<and> n \<le> 57 then Some (n - 48)
      else if 97 \<le> n \<and> n \<le> 122 then Some (n - 97 + 10)
      else if 65 \<le> n \<and> n \<le> 90 then Some (n - 65 + 10)
      else None)"

text \<open>
  The digit loop of \<open>ParseUint\<close>. The accumulator \<open>n\<close> is a \<open>uint64\<close>: a natural number
  with the wrap-around of the multiplication and of the addition written out.
\<close>

fun uintLoop :: "nat \<Rightarrow> nat \<Rightarrow> nat \<Rightarrow> string \<Rightarrow> nat \<Rightarrow> NumError + nat" where
  "uintLoop base cutoff maxVal [] n = Inr n"
| "uintLoop base cutoff maxVal (c # cs) n =
     (case digitVal c of
        None \<Rightarrow> Inl ErrSyntax
      | Some d \<Rightarrow>
          if d \<ge> base then Inl ErrSyntax
          else if n \<ge> cutoff then Inl ErrRange
          else
            let m = (n * base) mod 2 ^ 64;
                n1 = (m + d) mod 2 ^ 64
            in if n1 < m \<or> n1 > maxVal then Inl ErrRange
               else uintLoop base cutoff maxVal cs n1)"

text \<open>
  \<open>strconv.ParseUint(s, base, bitSize)\<close> for an explicit base from 2 to 36. Base 0, where
  Go reads the base from a prefix of the string and allows underscores, is not used by
  the program; it is reported as \<open>ErrBase\<close> here. A bit size of 0 means 64.
\<close>

definition ParseUint :: "string \<Rightarrow> nat \<Rightarrow> nat \<Rightarrow> NumError + nat" where
  "ParseUint s base bitSize =
     (if s = [] then Inl ErrSyntax
      else if \<not> (2 \<le> base \<and> base \<le> 36) then Inl ErrBase
      else if bitSize > 64 then Inl ErrBitSize
      else
        let bits = (if bitSize = 0 then 64 else bitSize);
            cutoff = (2 ^ 64 - 1) div base + 1;
            maxVal = 2 ^ bits - 1
        in uintLoop base cutoff maxVal s 0)"

subsection \<open>hex.DecodeString\<close>

datatype hex_error = InvalidByteError char | ErrLength

definition fromHexChar :: "char \<Rightarrow> nat option" where
  "fromHexChar c =
     (let n = of_char c :: nat in
      if 48 \<le> n \<and> n \<le> 57 then Some (n - 48)
      else if 97 \<le> n \<and> n \<le> 102 then Some (n - 97 + 10)
      else if 65 \<le> n \<and> n \<le> 70 then Some (n - 65 + 10)
      else None)"

text \<open>
  The bytes are decoded two characters at a time; an invalid character is reported
  before an odd length, as in the Go source.
\<close>

fun DecodeString :: "string \<Rightarrow> hex_error + nat list" where
  "DecodeString [] = Inr []"
| "DecodeString [p] =
     (case fromHexChar p of
        None \<Rightarrow> Inl (InvalidByteError p)
      | Some a \<Rightarrow> Inl ErrLength)"
| "DecodeString (p # q # rest) =
     (case fromHexChar p of
        None \<Rightarrow> Inl (InvalidByteError p)
      | Some a \<Rightarrow>
          (case fromHexChar q of
             None \<Rightarrow> Inl (InvalidByteError q)
           | Some b \<Rightarrow>
               (case DecodeString rest of
                  Inl e \<Rightarrow> Inl e
                | Inr bs \<Rightarrow> Inr ((a * 16 + b) # bs))))"

section \<open>The bootstrap list parser\<close>

record bootstrapNode =
  host :: string
  port :: "16 word"
  key :: string

datatype skip_reason =
    NeedHostPortPubkey
  | BadPort NumError
  | BadPubkeyHex hex_error

text \<open>
  The body of the loop of \<open>parseBootstrapEnv\<close> for one non-empty, trimmed item: either
  the reason of the \<open>continue\<close>, or the node that is appended.
\<close>

definition parseItem :: "string \<Rightarrow> skip_reason + bootstrapNode" where
  "parseItem item =
     (let parts = Split item CHR '':'' in
      if length parts < 3 then Inl NeedHostPortPubkey
      else
        let h = TrimSpace (parts ! 0);
            portStr = TrimSpace (parts ! 1);
            pubKey = TrimSpace (Join (drop 2 parts) '':'')
        in (case ParseUint portStr 10 16 of
              Inl err \<Rightarrow> Inl (BadPort err)
            | Inr p64 \<Rightarrow>
                let pubKey' = ReplaceAll pubKey CHR '' '' [] in
                (case DecodeString pubKey' of
                   Inl err \<Rightarrow> Inl (BadPubkeyHex err)
                 | Inr bs \<Rightarrow> Inr \<lparr>host = h, port = of_nat p64, key = pubKey'\<rparr>)))"

text \<open>
  The loop over the comma-separated items, with the slice \<open>out\<close> it appends to and
  the diagnostics it logs (the item and the reason), in order.
\<close>

fun parseLoop ::
  "string list \<Rightarrow> bootstrapNode list \<Rightarrow> (string \<times> skip_reason) list
     \<Rightarrow> bootstrapNode list \<times> (string \<times> skip_reason) list" where
  "parseLoop [] out lg = (out, lg)"
| "parseLoop (item0 # items) out lg =
     (let item = TrimSpace item0 in
      if item = [] then parseLoop items out lg
      else (case parseItem item of
              Inl r \<Rightarrow> parseLoop items out (lg @ [(item, r)])
            | Inr n \<Rightarrow> parseLoop items (out @ [n]) lg))"

definition parseBootstrapEnvLog :: "string \<Rightarrow> bootstrapNode list \<times> (string \<times> skip_reason) list" where
  "parseBootstrapEnvLog s0 =
     (let s = TrimSpace s0 in
      if s = [] then ([], [])
      else parseLoop (Split s CHR '','') [] [])"

definition parseBootstrapEnv :: "string \<Rightarrow> bootstrapNode list" where
  "parseBootstrapEnv s = fst (parseBootstrapEnvLog s)"

definition defaultBootstrap :: "bootstrapNode list" where
  "defaultBootstrap =
     [\<lparr>host = ''tox.abilinski.com'', port = 33445,
        key = ''10C00EB250C3233E343E2AEBA07115A5C28920E9C8D29492F6D00B29049EDC7E''\<rparr>,
      \<lparr>host = ''144.217.167.73'', port = 33445,
        key = ''7E5668E0EE09E19F320AD47902419331FFEE147BB3606769CFBE921A2A2FD34C''\<rparr>]"

section \<open>What the parser returns, entry by entry\<close>

text \<open>
  The result of \<open>parseBootstrapEnv\<close> described without the loop: which entries of the
  input are kept, and the node each of them gives. The entries are the comma-separated
  pieces of the trimmed input, each trimmed.
\<close>

definition entries :: "string \<Rightarrow> string list" where
  "entries s = map TrimSpace (Split (TrimSpace s) CHR '','')"

text \<open>
  The three fields of an entry, as the parser reads them: the first and the second
  colon-separated piece, trimmed, and the remaining pieces joined with colons again,
  trimmed, with every space removed.
\<close>

definition hostField :: "string \<Rightarrow> string" where
  "hostField item = TrimSpace (Split item CHR '':'' ! 0)"

definition portField :: "string \<Rightarrow> string" where
  "portField item = TrimSpace (Split item CHR '':'' ! 1)"

definition keyField :: "string \<Rightarrow> string" where
  "keyField item =
     ReplaceAll (TrimSpace (Join (drop 2 (Split item CHR '':'')) '':'')) CHR '' '' []"

text \<open>
  A decimal numeral of an unsigned 16-bit number: at least one character, only the
  digits 0 to 9, value at most 65535. A hexadecimal byte string: an even number of
  hexadecimal digits of either case.
\<close>

definition isDigit :: "char \<Rightarrow> bool" where
  "isDigit c = (c \<in> set ''0123456789'')"

definition isHexDigit :: "char \<Rightarrow> bool" where
  "isHexDigit c = (c \<in> set ''0123456789abcdefABCDEF'')"

definition decimalValue :: "string \<Rightarrow> nat" where
  "decimalValue p = foldl (\<lambda>a c. 10 * a + (of_char c - 48)) 0 p"

definition isDecimal16 :: "string \<Rightarrow> bool" where
  "isDecimal16 p = (p \<noteq> [] \<and> list_all isDigit p \<and> decimalValue p \<le> 65535)"

definition isHex :: "string \<Rightarrow> bool" where
  "isHex k = (even (length k) \<and> list_all isHexDigit k)"

definition validEntry :: "string \<Rightarrow> bool" where
  "validEntry item =
     (3 \<le> length (Split item CHR '':'') \<and> isDecimal16 (portField item) \<and> isHex (keyField item))"

definition nodeOf :: "string \<Rightarrow> bootstrapNode" where
  "nodeOf item =
     \<lparr>host = hostField item, port = of_nat (decimalValue (portField item)), key = keyField item\<rparr>"

section \<open>Resolving the bootstrap nodes\<close>

text \<open>
  The root command reads \<open>TOX_BOOTSTRAP_NODES\<close> (the empty string when unset), parses
  it and falls back to \<open>defaultBootstrap\<close> when no node is left; it then calls
  \<open>Bootstrap\<close> on every node of the list.
\<close>

definition rootBootstrapNodes :: "string \<Rightarrow> bootstrapNode list" where
  "rootBootstrapNodes env =
     (let nodes = parseBootstrapEnv env in
      if length nodes = 0 then defaultBootstrap else nodes)"

definition rootBootstrapAttempts :: "string \<Rightarrow> bootstrapNode list" where
  "rootBootstrapAttempts env = rootBootstrapNodes env"

text \<open>
  The command under \<open>cmd/toxcbt\<close> has the list written into \<open>main\<close>, never reads the
  variable, and skips a node whose key is not hexadecimal before calling \<open>Bootstrap\<close>.
\<close>

definition bootstrapNodes :: "bootstrapNode list" where
  "bootstrapNodes =
     [\<lparr>host = ''tox.abilinski.com'', port = 33445,
        key = ''10C00EB250C3233E343E2AEBA07115A5C28920E9C8D29492F6D00B29049EDC7E''\<rparr>,
      \<lparr>host = ''144.217.167.73'', port = 33445,
        key = ''7E5668E0EE09E19F320AD47902419331FFEE147BB3606769CFBE921A2A2FD34C''\<rparr>]"

definition cmdBootstrapAttempts :: "string \<Rightarrow> bootstrapNode list" where
  "cmdBootstrapAttempts env = filter (\<lambda>n. \<not> isl (DecodeString (key n))) bootstrapNodes"

section \<open>The running bot: engine, files and the order of calls\<close>

datatype os_error = OsError

datatype log_line =
    LogMsgFrom "32 word" string
  | LogShuttingDown
  | LogSaveSkipped
  | LogSaveFailed os_error
  | LogSaveRenameFailed os_error
  | LogSaved string nat

text \<open>
  What the program does to the outside, in the order it does it: log lines, messages
  handed to the engine for sending, calls of \<open>save\<close>, file operations, engine ticks,
  sleeps and the deferred calls that run when \<open>main\<close> returns.
\<close>

datatype event =
    EvLog log_line
  | EvSend "32 word" string
  | EvSave string
  | EvWriteFile string string
  | EvRename string string
  | EvRemove string
  | EvIterate
  | EvSleep nat
  | EvTickerStop
  | EvSignalStop
  | EvKill

record world =
  files :: "string \<rightharpoonup> string"
  selfAddress :: string
  savedata :: string
  trace :: "event list"

definition emit :: "event \<Rightarrow> world \<Rightarrow> world" where
  "emit e w = w\<lparr>trace := trace w @ [e]\<rparr>"

subsection \<open>The friend-message callback\<close>

definition onFriendMessage :: "world \<Rightarrow> 32 word \<Rightarrow> string \<Rightarrow> world" where
  "onFriendMessage w friend message =
     (let msg = TrimSpace message;
          w1 = emit (EvLog (LogMsgFrom friend msg)) w
      in if msg = ''/ping'' then emit (EvSend friend ''pong'') w1
         else if msg = ''/id'' then emit (EvSend friend (''my tox id: '' @ selfAddress w1)) w1
         else emit (EvSend friend (''echo: '' @ message)) w1)"

subsection \<open>The file operations of the operating system\<close>

text \<open>
  Each operation can fail; what happens is an input of the model. A failed
  \<open>os.WriteFile\<close> either could not open the file, or has created or truncated it and
  written only the first bytes. A failed \<open>os.Rename\<close> or \<open>os.Remove\<close> changes nothing.
\<close>

datatype write_outcome = WriteOk | WriteOpenFails | WriteFailsAfter nat

record os_outcomes =
  writeOutcome :: write_outcome
  renameOk :: bool
  removeOk :: bool

definition WriteFile :: "string \<Rightarrow> string \<Rightarrow> write_outcome \<Rightarrow> world \<Rightarrow> os_error option \<times> world" where
  "WriteFile name data oc w =
     (let w1 = emit (EvWriteFile name data) w in
      case oc of
        WriteOk \<Rightarrow> (None, w1\<lparr>files := (files w1)(name \<mapsto> data)\<rparr>)
      | WriteOpenFails \<Rightarrow> (Some OsError, w1)
      | WriteFailsAfter n \<Rightarrow> (Some OsError, w1\<lparr>files := (files w1)(name \<mapsto> take n data)\<rparr>))"

definition Rename :: "string \<Rightarrow> string \<Rightarrow> bool \<Rightarrow> world \<Rightarrow> os_error option \<times> world" where
  "Rename old new ok w =
     (let w1 = emit (EvRename old new) w in
      if ok \<and> files w1 old \<noteq> None
      then (None, w1\<lparr>files := ((files w1)(new := files w1 old))(old := None)\<rparr>)
      else (Some OsError, w1))"

definition Remove :: "string \<Rightarrow> bool \<Rightarrow> world \<Rightarrow> os_error option \<times> world" where
  "Remove name ok w =
     (let w1 = emit (EvRemove name) w in
      if ok \<and> files w1 name \<noteq> None
      then (None, w1\<lparr>files := (files w1)(name := None)\<rparr>)
      else (Some OsError, w1))"

subsection \<open>save\<close>

definition save :: "world \<Rightarrow> string \<Rightarrow> os_outcomes \<Rightarrow> world" where
  "save w0 path os =
     (let w = emit (EvSave path) w0;
          tmp = path @ ''.tmp'';
          data = savedata w
      in if length data = 0 then emit (EvLog LogSaveSkipped) w
         else (case WriteFile tmp data (writeOutcome os) w of
                 (Some err, w1) \<Rightarrow> emit (EvLog (LogSaveFailed err)) w1
               | (None, w1) \<Rightarrow>
                   (case Rename tmp path (renameOk os) w1 of
                      (Some err, w2) \<Rightarrow>
                        emit (EvLog (LogSaveRenameFailed err)) (snd (Remove tmp (removeOk os) w2))
                    | (None, w2) \<Rightarrow> emit (EvLog (LogSaved path (length data))) w2)))"

subsection \<open>The loop of main\<close>

text \<open>
  One pass of the \<open>for\<close> loop sees whether \<open>ctx.Done()\<close> and \<open>saveTick.C\<close> are ready.
  A Go \<open>select\<close> with several ready cases takes one of them by a pseudo-random choice
  of the runtime (\<open>pickDone\<close> here), and takes \<open>default\<close> only when none is ready. The
  pass also carries what the outside does during it: the outcomes of the file
  operations of a save, and for a tick the messages the engine delivers to the
  callback, the engine's state blob afterwards and the interval it recommends.
\<close>

record pass =
  doneReady :: bool
  tickReady :: bool
  pickDone :: bool
  osOutcomes :: os_outcomes
  delivered :: "(32 word \<times> string) list"
  savedataAfter :: string
  iterationInterval :: nat

datatype select_case = CaseDone | CaseSaveTick | CaseDefault

definition selectCase :: "pass \<Rightarrow> select_case" where
  "selectCase p =
     (if doneReady p \<and> tickReady p then (if pickDone p then CaseDone else CaseSaveTick)
      else if doneReady p then CaseDone
      else if tickReady p then CaseSaveTick
      else CaseDefault)"

definition iterate :: "pass \<Rightarrow> world \<Rightarrow> world" where
  "iterate p w =
     (foldl (\<lambda>v (friend, message). onFriendMessage v friend message) (emit EvIterate w) (delivered p))
       \<lparr>savedata := savedataAfter p\<rparr>"

definition deferred :: "world \<Rightarrow> world" where
  "deferred w = emit EvKill (emit EvSignalStop (emit EvTickerStop w))"

text \<open>
  The loop over a finite schedule of passes. The result says whether \<open>main\<close> has
  returned; \<open>False\<close> means that the schedule ended with the loop still running.
\<close>

fun mainLoop :: "pass list \<Rightarrow> string \<Rightarrow> world \<Rightarrow> world \<times> bool" where
  "mainLoop [] saveFile w = (w, False)"
| "mainLoop (p # ps) saveFile w =
     (case selectCase p of
        CaseDone \<Rightarrow>
          (deferred (save (emit (EvLog LogShuttingDown) w) saveFile (osOutcomes p)), True)
      | CaseSaveTick \<Rightarrow> mainLoop ps saveFile (save w saveFile (osOutcomes p))
      | CaseDefault \<Rightarrow> mainLoop ps saveFile (emit (EvSleep (iterationInterval p)) (iterate p w)))"

text \<open>A world with no files and nothing done yet, for concrete runs.\<close>

definition freshWorld :: "string \<Rightarrow> string \<Rightarrow> world" where
  "freshWorld addr blob = \<lparr>files = Map.empty, selfAddress = addr, savedata = blob, trace = []\<rparr>"

text \<open>The number of calls of \<open>save\<close> among some events.\<close>

definition saveCalls :: "event list \<Rightarrow> nat" where
  "saveCalls es = length (filter (\<lambda>e. case e of EvSave path \<Rightarrow> True | _ \<Rightarrow> False) es)"

text \<open>
  A pass during which the engine delivers nothing and every file operation would
  succeed; only the readiness of the two channels and the choice of the runtime vary.
\<close>

definition quietPass :: "bool \<Rightarrow> bool \<Rightarrow> bool \<Rightarrow> pass" where
  "quietPass d t k =
     \<lparr>doneReady = d, tickReady = t, pickDone = k,
      osOutcomes = \<lparr>writeOutcome = WriteOk, renameOk = True, removeOk = True\<rparr>,
      delivered = [], savedataAfter = [], iterationInterval = 50\<rparr>"

section \<open>The message handler\<close>

lemma TrimSpace_ping: "TrimSpace '' /ping '' = ''/ping''"
  by code_simp

lemma TrimSpace_hello: "TrimSpace ''  hello  '' = ''hello''"
  by code_simp

text \<open>
  C1. For every incoming friend message the handler trims the surrounding white space
  and compares the trimmed text: \<open>/ping\<close> is answered with \<open>pong\<close>, \<open>/id\<close> with
  \<open>my tox id: \<close> followed by the bot's own address, and every other text with \<open>echo: \<close>
  followed by the original, untrimmed message. The handler logs the trimmed message
  and hands exactly one reply to the engine, addressed to the sender.
\<close>

theorem onFriendMessage_dispatch:
  "onFriendMessage w friend message =
     w\<lparr>trace := trace w @
        [EvLog (LogMsgFrom friend (TrimSpace message)),
         EvSend friend
           (if TrimSpace message = ''/ping'' then ''pong''
            else if TrimSpace message = ''/id'' then ''my tox id: '' @ selfAddress w
            else ''echo: '' @ message)]\<rparr>"
  by (simp add: onFriendMessage_def emit_def Let_def)

theorem onFriendMessage_dispatch_witness:
  "trace (onFriendMessage (freshWorld ''ABCD'' []) 3 '' /ping '') =
     [EvLog (LogMsgFrom 3 ''/ping''), EvSend 3 ''pong'']"
  using onFriendMessage_dispatch [of "freshWorld ''ABCD'' []" 3 "'' /ping ''"]
  by (simp add: TrimSpace_ping freshWorld_def)

text \<open>
  C2, as the code has it. For the message \<open>hello\<close> with two spaces on each side the
  handler logs the trimmed text and replies with \<open>echo: \<close> followed by the message as
  it came, spaces included.
\<close>

theorem onFriendMessage_hello:
  "onFriendMessage w friend ''  hello  '' =
     w\<lparr>trace := trace w @
        [EvLog (LogMsgFrom friend ''hello''), EvSend friend ''echo:   hello  '']\<rparr>"
  by (simp add: onFriendMessage_def emit_def Let_def TrimSpace_hello)

text \<open>The reply \<open>echo: hello\<close> is not sent for that message.\<close>

theorem onFriendMessage_hello_counterexample:
  "EvSend 7 ''echo: hello'' \<notin> set (trace (onFriendMessage (freshWorld ''ABCD'' []) 7 ''  hello  ''))"
  by (simp add: onFriendMessage_def emit_def Let_def TrimSpace_hello freshWorld_def)

section \<open>Saving the engine state\<close>

text \<open>
  C5. When the engine's state blob is empty, \<open>save\<close> logs that it skips and returns:
  it calls no file operation, so no temporary file appears and every file, the one at
  the save path included, is what it was.
\<close>

theorem save_empty_noop:
  "savedata w = [] \<Longrightarrow>
     save w path os = w\<lparr>trace := trace w @ [EvSave path, EvLog LogSaveSkipped]\<rparr> \<and>
     files (save w path os) = files w"
  by (simp add: save_def emit_def Let_def)

theorem save_empty_noop_witness:
  "savedata (freshWorld ''ABCD'' []) = [] \<and>
   trace (save (freshWorld ''ABCD'' []) ''/data/bot.tox'' \<lparr>writeOutcome = WriteOk, renameOk = True, removeOk = True\<rparr>)
     = [EvSave ''/data/bot.tox'', EvLog LogSaveSkipped] \<and>
   files (save (freshWorld ''ABCD'' []) ''/data/bot.tox'' \<lparr>writeOutcome = WriteOk, renameOk = True, removeOk = True\<rparr>)
     = files (freshWorld ''ABCD'' [])"
  using save_empty_noop [of "freshWorld ''ABCD'' []" "''/data/bot.tox''"
      "\<lparr>writeOutcome = WriteOk, renameOk = True, removeOk = True\<rparr>"]
  by (simp add: freshWorld_def)

lemma tmp_neq_path: "path @ ''.tmp'' \<noteq> path"
  by (metis append_self_conv list.distinct(1))

lemma save_path_cases:
  "files (save w path os) path = files w path \<or> files (save w path os) path = Some (savedata w)"
  using tmp_neq_path [of path]
  by (cases "writeOutcome os")
     (auto simp: save_def WriteFile_def Rename_def Remove_def emit_def Let_def)

lemma save_rename_fails_lemma:
  assumes "savedata w \<noteq> []" "writeOutcome os = WriteOk" "\<not> renameOk os"
  shows "files (save w path os) path = files w path"
    and "trace (save w path os) =
           trace w @ [EvSave path, EvWriteFile (path @ ''.tmp'') (savedata w),
                      EvRename (path @ ''.tmp'') path, EvRemove (path @ ''.tmp''),
                      EvLog (LogSaveRenameFailed OsError)]"
    and "removeOk os \<Longrightarrow> files (save w path os) (path @ ''.tmp'') = None"
    and "\<not> removeOk os \<Longrightarrow> files (save w path os) (path @ ''.tmp'') = Some (savedata w)"
  using assms tmp_neq_path [of path]
  by (auto simp: save_def WriteFile_def Rename_def Remove_def emit_def Let_def)

text \<open>What a call of \<open>save\<close>, a delivered message and the shutdown add to the trace.\<close>

lemma save_trace:
  "\<exists>more. trace (save w path os) = trace w @ EvSave path # more \<and> saveCalls more = 0
      \<and> EvIterate \<notin> set more \<and> EvLog LogShuttingDown \<notin> set more"
  by (cases "writeOutcome os")
     (auto simp: save_def WriteFile_def Rename_def Remove_def emit_def Let_def saveCalls_def)

lemma onFriendMessage_trace:
  "\<exists>more. trace (onFriendMessage w f m) = trace w @ more \<and> saveCalls more = 0
      \<and> EvIterate \<notin> set more \<and> EvLog LogShuttingDown \<notin> set more"
  by (auto simp: onFriendMessage_def emit_def Let_def saveCalls_def)

lemma deliver_trace:
  "\<exists>more. trace (foldl (\<lambda>v (friend, message). onFriendMessage v friend message) w ms) = trace w @ more
      \<and> saveCalls more = 0 \<and> EvIterate \<notin> set more \<and> EvLog LogShuttingDown \<notin> set more"
proof (induction ms arbitrary: w)
  case Nil
  then show ?case by (simp add: saveCalls_def)
next
  case (Cons a ms)
  obtain f m where a: "a = (f, m)" by (cases a)
  obtain m1 where m1: "trace (onFriendMessage w f m) = trace w @ m1" "saveCalls m1 = 0"
     "EvIterate \<notin> set m1" "EvLog LogShuttingDown \<notin> set m1"
    using onFriendMessage_trace by blast
  obtain m2 where m2: "trace (foldl (\<lambda>v (friend, message). onFriendMessage v friend message) (onFriendMessage w f m) ms)
       = trace (onFriendMessage w f m) @ m2" "saveCalls m2 = 0"
     "EvIterate \<notin> set m2" "EvLog LogShuttingDown \<notin> set m2"
    using Cons.IH by blast
  show ?case
    apply (rule exI [of _ "m1 @ m2"])
    using m1 m2 by (simp add: a saveCalls_def)
qed

lemma mainLoop_shutdown:
  assumes "\<forall>q\<in>set pre. selectCase q \<noteq> CaseDone" "selectCase p = CaseDone"
  shows "mainLoop (pre @ p # post) saveFile w =
           (deferred (save (emit (EvLog LogShuttingDown) (fst (mainLoop pre saveFile w)))
              saveFile (osOutcomes p)), True)"
  using assms(1)
proof (induction pre arbitrary: w)
  case Nil
  then show ?case using assms(2) by simp
next
  case (Cons q pre)
  then show ?case by (cases "selectCase q") simp_all
qed

lemma shutdown_trace:
  "\<exists>more. trace (deferred (save (emit (EvLog LogShuttingDown) w) saveFile os)) =
       trace w @ EvLog LogShuttingDown # EvSave saveFile # more
     \<and> saveCalls more = 0 \<and> EvIterate \<notin> set more \<and> last more = EvKill"
proof -
  obtain m where m: "trace (save (emit (EvLog LogShuttingDown) w) saveFile os) =
      trace (emit (EvLog LogShuttingDown) w) @ EvSave saveFile # m" "saveCalls m = 0" "EvIterate \<notin> set m"
    using save_trace by blast
  show ?thesis
    apply (rule exI [of _ "m @ [EvTickerStop, EvSignalStop, EvKill]"])
    using m by (simp add: deferred_def emit_def saveCalls_def)
qed

text \<open>
  C6, as the code has it. When the write of the temporary file succeeds and the rename
  onto the save path fails, the file at the save path is what it was; \<open>save\<close> then
  calls \<open>os.Remove\<close> on the temporary file and ignores its result, so the temporary
  file is gone when that removal succeeds. Whatever the file operations do, after
  \<open>save\<close> the file at the save path is either what it was before or the complete new
  state blob, never a part of it.
\<close>

theorem save_rename_failure:
  "(savedata w \<noteq> [] \<and> writeOutcome os = WriteOk \<and> \<not> renameOk os \<longrightarrow>
      files (save w path os) path = files w path \<and>
      trace (save w path os) =
        trace w @ [EvSave path, EvWriteFile (path @ ''.tmp'') (savedata w),
                   EvRename (path @ ''.tmp'') path, EvRemove (path @ ''.tmp''),
                   EvLog (LogSaveRenameFailed OsError)] \<and>
      (removeOk os \<longrightarrow> files (save w path os) (path @ ''.tmp'') = None)) \<and>
   (files (save w path os) path = files w path \<or>
    files (save w path os) path = Some (savedata w))"
  using save_rename_fails_lemma [of w os path] save_path_cases [of w path os]
  by blast

theorem save_rename_failure_witness:
  "files (save (freshWorld ''ABCD'' ''blob'') ''/data/bot.tox''
       \<lparr>writeOutcome = WriteOk, renameOk = False, removeOk = True\<rparr>) ''/data/bot.tox'' = None \<and>
   files (save (freshWorld ''ABCD'' ''blob'') ''/data/bot.tox''
       \<lparr>writeOutcome = WriteOk, renameOk = False, removeOk = True\<rparr>) ''/data/bot.tox.tmp'' = None"
  using save_rename_failure [of "freshWorld ''ABCD'' ''blob''"
      "\<lparr>writeOutcome = WriteOk, renameOk = False, removeOk = True\<rparr>" "''/data/bot.tox''"]
  by (simp add: freshWorld_def)

text \<open>
  When the removal fails as well, the temporary file stays, with the blob in it.
\<close>

theorem save_rename_failure_counterexample:
  "files (save (freshWorld ''ABCD'' ''blob'') ''/data/bot.tox''
       \<lparr>writeOutcome = WriteOk, renameOk = False, removeOk = False\<rparr>) ''/data/bot.tox.tmp''
     = Some ''blob''"
  by (simp add: save_def WriteFile_def Rename_def Remove_def emit_def Let_def freshWorld_def)

section \<open>The loop of main\<close>

lemma selectCase_Done: "selectCase p = CaseDone \<longleftrightarrow> doneReady p \<and> (tickReady p \<longrightarrow> pickDone p)"
  by (simp add: selectCase_def)

lemma first_shutdown_pass:
  assumes "\<exists>p\<in>set sched. selectCase p = CaseDone"
  shows "\<exists>pre p post. sched = pre @ p # post \<and> (\<forall>q\<in>set pre. selectCase q \<noteq> CaseDone) \<and>
           selectCase p = CaseDone"
  using split_list_first_prop [OF assms] by blast

text \<open>
  C7. Once the shutdown signal is pending, the first pass in which the \<open>select\<close> does
  not give the turn to the save timer observes it (when the timer channel is empty
  that is the very next pass). In every run with such a pass the loop returns; whatever
  the passes before did, a periodic save in the pass just before included, it logs the
  shutdown, calls \<open>save\<close> exactly once, performs no further tick and runs the deferred
  calls that end the process. The passes after it never happen.
\<close>

theorem mainLoop_final_save:
  assumes "\<exists>p\<in>set sched. doneReady p \<and> (tickReady p \<longrightarrow> pickDone p)"
  shows "snd (mainLoop sched saveFile w) = True \<and>
         (\<exists>pre p post more.
            sched = pre @ p # post \<and> (\<forall>q\<in>set pre. selectCase q \<noteq> CaseDone) \<and>
            trace (fst (mainLoop sched saveFile w)) =
              trace (fst (mainLoop pre saveFile w)) @ EvLog LogShuttingDown # EvSave saveFile # more \<and>
            saveCalls more = 0 \<and> EvIterate \<notin> set more \<and> last more = EvKill)"
proof -
  have ex: "\<exists>p\<in>set sched. selectCase p = CaseDone"
    using assms by (simp add: selectCase_Done)
  obtain pre p post where sched: "sched = pre @ p # post"
      and pre: "\<forall>q\<in>set pre. selectCase q \<noteq> CaseDone" and p: "selectCase p = CaseDone"
    using first_shutdown_pass [OF ex] by blast
  have run: "mainLoop sched saveFile w =
      (deferred (save (emit (EvLog LogShuttingDown) (fst (mainLoop pre saveFile w)))
         saveFile (osOutcomes p)), True)"
    unfolding sched using pre p by (rule mainLoop_shutdown)
  obtain more where more:
      "trace (deferred (save (emit (EvLog LogShuttingDown) (fst (mainLoop pre saveFile w)))
           saveFile (osOutcomes p))) =
         trace (fst (mainLoop pre saveFile w)) @ EvLog LogShuttingDown # EvSave saveFile # more"
      "saveCalls more = 0" "EvIterate \<notin> set more" "last more = EvKill"
    using shutdown_trace [of "fst (mainLoop pre saveFile w)" saveFile "osOutcomes p"] by blast
  have ret: "snd (mainLoop sched saveFile w) = True"
    by (simp add: run)
  have tr: "trace (fst (mainLoop sched saveFile w)) =
      trace (fst (mainLoop pre saveFile w)) @ EvLog LogShuttingDown # EvSave saveFile # more"
    by (simp add: run more(1))
  show ?thesis
    using ret sched pre tr more(2,3,4) by blast
qed


lemma selectCase_quiet:
  "selectCase (quietPass True True False) = CaseSaveTick"
  "selectCase (quietPass True False False) = CaseDone"
  "selectCase (quietPass False False False) = CaseDefault"
  by (simp_all add: selectCase_def quietPass_def)

theorem mainLoop_final_save_witness:
  "mainLoop [quietPass True True False, quietPass True False False, quietPass False False False]
       ''/data/bot.tox'' (freshWorld ''ABCD'' []) =
     (\<lparr>files = Map.empty, selfAddress = ''ABCD'', savedata = [],
       trace = [EvSave ''/data/bot.tox'', EvLog LogSaveSkipped,
                EvLog LogShuttingDown, EvSave ''/data/bot.tox'', EvLog LogSaveSkipped,
                EvTickerStop, EvSignalStop, EvKill]\<rparr>, True)"
proof -
  have sig: "doneReady (quietPass True False False) \<and>
      (tickReady (quietPass True False False) \<longrightarrow> pickDone (quietPass True False False))"
    by (simp add: quietPass_def)
  have ex: "\<exists>p\<in>set [quietPass True True False, quietPass True False False, quietPass False False False].
          doneReady p \<and> (tickReady p \<longrightarrow> pickDone p)"
    using sig by simp
  have ret: "snd (mainLoop [quietPass True True False, quietPass True False False,
        quietPass False False False] ''/data/bot.tox'' (freshWorld ''ABCD'' [])) = True"
    using mainLoop_final_save [OF ex] by (rule conjunct1)
  have w: "fst (mainLoop [quietPass True True False, quietPass True False False,
        quietPass False False False] ''/data/bot.tox'' (freshWorld ''ABCD'' [])) =
     \<lparr>files = Map.empty, selfAddress = ''ABCD'', savedata = [],
       trace = [EvSave ''/data/bot.tox'', EvLog LogSaveSkipped,
                EvLog LogShuttingDown, EvSave ''/data/bot.tox'', EvLog LogSaveSkipped,
                EvTickerStop, EvSignalStop, EvKill]\<rparr>"
    by (simp add: selectCase_quiet save_def emit_def deferred_def Let_def freshWorld_def)
  show ?thesis
    using ret w by (simp add: prod_eq_iff)
qed

text \<open>
  C8, as the code has it. A pass takes the \<open>default\<close> case, one engine tick and a
  sleep, exactly when neither the shutdown signal nor the save timer is pending. When
  only one of the two is pending it is served; when both are pending the runtime
  serves either of them, the shutdown signal has no priority. So a pass with something
  pending calls \<open>save\<close> and performs no tick, and a tick is followed by its callbacks and
  the sleep with no save and no shutdown in between.
\<close>

theorem mainLoop_pass_order:
  "(selectCase p = CaseDefault \<longleftrightarrow> \<not> doneReady p \<and> \<not> tickReady p) \<and>
   (doneReady p \<and> tickReady p \<longrightarrow>
      selectCase p = (if pickDone p then CaseDone else CaseSaveTick)) \<and>
   (doneReady p \<and> \<not> tickReady p \<longrightarrow> selectCase p = CaseDone) \<and>
   (\<not> doneReady p \<and> tickReady p \<longrightarrow> selectCase p = CaseSaveTick) \<and>
   (doneReady p \<or> tickReady p \<longrightarrow>
      (\<exists>more. trace (fst (mainLoop [p] saveFile w)) = trace w @ more \<and>
         EvSave saveFile \<in> set more \<and> EvIterate \<notin> set more)) \<and>
   (\<not> doneReady p \<and> \<not> tickReady p \<longrightarrow>
      (\<exists>replies. trace (fst (mainLoop [p] saveFile w)) =
           trace w @ EvIterate # replies @ [EvSleep (iterationInterval p)] \<and>
         saveCalls replies = 0 \<and> EvLog LogShuttingDown \<notin> set replies \<and>
         EvIterate \<notin> set replies))"
proof -
  have sel: "selectCase p = CaseDefault \<longleftrightarrow> \<not> doneReady p \<and> \<not> tickReady p"
    by (simp add: selectCase_def)
  have pending: "\<exists>more. trace (fst (mainLoop [p] saveFile w)) = trace w @ more \<and>
         EvSave saveFile \<in> set more \<and> EvIterate \<notin> set more"
    if "doneReady p \<or> tickReady p"
  proof (cases "selectCase p")
    case CaseDone
    obtain m where "trace (deferred (save (emit (EvLog LogShuttingDown) w) saveFile (osOutcomes p))) =
        trace w @ EvLog LogShuttingDown # EvSave saveFile # m" "EvIterate \<notin> set m"
      using shutdown_trace by blast
    then show ?thesis using CaseDone
      by (intro exI [of _ "EvLog LogShuttingDown # EvSave saveFile # m"]) simp
  next
    case CaseSaveTick
    obtain m where "trace (save w saveFile (osOutcomes p)) = trace w @ EvSave saveFile # m"
        "EvIterate \<notin> set m"
      using save_trace by blast
    then show ?thesis using CaseSaveTick
      by (intro exI [of _ "EvSave saveFile # m"]) simp
  next
    case CaseDefault
    then show ?thesis using that sel by simp
  qed
  have idle: "\<exists>replies. trace (fst (mainLoop [p] saveFile w)) =
           trace w @ EvIterate # replies @ [EvSleep (iterationInterval p)] \<and>
         saveCalls replies = 0 \<and> EvLog LogShuttingDown \<notin> set replies \<and>
         EvIterate \<notin> set replies"
    if "\<not> doneReady p \<and> \<not> tickReady p"
  proof -
    obtain m where "trace (foldl (\<lambda>v (friend, message). onFriendMessage v friend message)
          (emit EvIterate w) (delivered p)) = trace (emit EvIterate w) @ m"
        "saveCalls m = 0" "EvIterate \<notin> set m" "EvLog LogShuttingDown \<notin> set m"
      using deliver_trace by blast
    then show ?thesis using that sel
      by (intro exI [of _ m]) (simp add: iterate_def emit_def)
  qed
  show ?thesis
    using sel pending idle by (simp add: selectCase_def)
qed

theorem mainLoop_pass_order_witness:
  "selectCase (quietPass False False False) = CaseDefault \<and>
   selectCase (quietPass True True True) = CaseDone \<and>
   selectCase (quietPass True False False) = CaseDone \<and>
   selectCase (quietPass False True False) = CaseSaveTick \<and>
   trace (fst (mainLoop [quietPass False False False] ''/data/bot.tox'' (freshWorld ''ABCD'' ''blob'')))
     = [EvIterate, EvSleep 50]"
  using mainLoop_pass_order [of "quietPass False False False" "''/data/bot.tox''" "freshWorld ''ABCD'' ''blob''"]
    mainLoop_pass_order [of "quietPass True True True" "''/data/bot.tox''" "freshWorld ''ABCD'' ''blob''"]
  by (simp add: selectCase_def quietPass_def iterate_def emit_def freshWorld_def)

text \<open>
  With both pending and the runtime choosing the timer, the pass saves and the loop
  goes on: the pending shutdown is not served first.
\<close>

theorem mainLoop_pass_order_counterexample:
  "doneReady (quietPass True True False) \<and>
   selectCase (quietPass True True False) = CaseSaveTick \<and>
   mainLoop [quietPass True True False] ''/data/bot.tox'' (freshWorld ''ABCD'' []) =
     (\<lparr>files = Map.empty, selfAddress = ''ABCD'', savedata = [],
       trace = [EvSave ''/data/bot.tox'', EvLog LogSaveSkipped]\<rparr>, False)"
  by (simp add: selectCase_def quietPass_def save_def emit_def Let_def freshWorld_def)

section \<open>The bootstrap list parser\<close>

subsection \<open>Digits, numerals and hexadecimal strings\<close>

lemma char_eq_nat: "c = d \<longleftrightarrow> (of_char c :: nat) = of_char d"
  by simp

lemma isHexDigit_iff: "isHexDigit c \<longleftrightarrow> fromHexChar c \<noteq> None"
  unfolding fromHexChar_def Let_def isHexDigit_def
  apply (simp add: char_eq_nat [of c] del: of_char_eq_iff)
  apply arith
  done

lemma isDigit_range: "isDigit c \<longleftrightarrow> 48 \<le> (of_char c :: nat) \<and> (of_char c :: nat) \<le> 57"
  unfolding isDigit_def
  apply (simp add: char_eq_nat [of c] del: of_char_eq_iff)
  apply arith
  done

lemma digitVal_digit: "isDigit c \<Longrightarrow> digitVal c = Some (of_char c - 48)"
  by (simp add: digitVal_def isDigit_range)

lemma digitVal_nondigit: "\<not> isDigit c \<Longrightarrow> digitVal c = Some d \<Longrightarrow> 10 \<le> d"
  by (auto simp: digitVal_def isDigit_range Let_def split: if_splits)

lemma digit_bound: "isDigit c \<Longrightarrow> (of_char c :: nat) - 48 < 10"
  by (auto simp: isDigit_range)

lemma DecodeString_ok_iff: "\<not> isl (DecodeString s) \<longleftrightarrow> isHex s"
proof (induction s rule: DecodeString.induct)
  case 1
  then show ?case by (simp add: isHex_def)
next
  case (2 p)
  then show ?case by (simp add: isHex_def split: option.splits)
next
  case (3 p q rest)
  show ?case
  proof (cases "fromHexChar p")
    case None
    then show ?thesis by (simp add: isHex_def isHexDigit_iff)
  next
    case a: (Some a)
    show ?thesis
    proof (cases "fromHexChar q")
      case None
      then show ?thesis using a by (simp add: isHex_def isHexDigit_iff)
    next
      case b: (Some b)
      have "\<not> isl (DecodeString rest) \<longleftrightarrow> isHex rest"
        using "3.IH" a b by simp
      then show ?thesis
        using a b by (cases "DecodeString rest") (auto simp: isHex_def isHexDigit_iff)
    qed
  qed
qed

lemma foldl_decimal_mono: "a \<le> foldl (\<lambda>a c. 10 * a + ((of_char c :: nat) - 48)) a cs"
proof (induction cs arbitrary: a)
  case Nil
  then show ?case by simp
next
  case (Cons c cs)
  have "a \<le> 10 * a + ((of_char c :: nat) - 48)" by simp
  also have "\<dots> \<le> foldl (\<lambda>a c. 10 * a + ((of_char c :: nat) - 48)) (10 * a + ((of_char c :: nat) - 48)) cs"
    by (rule Cons.IH)
  finally show ?case by simp
qed

lemma uintLoop_decimal16:
  "n \<le> 65535 \<Longrightarrow>
     uintLoop 10 1844674407370955162 65535 cs n = Inr v \<longleftrightarrow>
       list_all isDigit cs \<and>
       foldl (\<lambda>a c. 10 * a + (of_char c - 48)) n cs \<le> 65535 \<and>
       v = foldl (\<lambda>a c. 10 * a + (of_char c - 48)) n cs"
proof (induction cs arbitrary: n)
  case Nil
  then show ?case by auto
next
  case (Cons c cs)
  let ?step = "\<lambda>a c. 10 * a + ((of_char c :: nat) - 48)"
  show ?case
  proof (cases "isDigit c")
    case False
    then have "uintLoop 10 1844674407370955162 65535 (c # cs) n = Inl ErrSyntax"
      using digitVal_nondigit [of c] by (cases "digitVal c") auto
    with False show ?thesis by simp
  next
    case True
    define d where "d = (of_char c :: nat) - 48"
    have dv: "digitVal c = Some d" and d: "d < 10"
      using True by (simp_all add: digitVal_digit digit_bound d_def)
    have m: "(n * 10) mod 2 ^ 64 = n * 10" and n1: "(n * 10 + d) mod 2 ^ 64 = n * 10 + d"
      using Cons.prems d by simp_all
    show ?thesis
    proof (cases "n * 10 + d > 65535")
      case big: True
      have "uintLoop 10 1844674407370955162 65535 (c # cs) n = Inl ErrRange"
        using dv d Cons.prems big m n1 by (simp add: Let_def)
      moreover have "foldl ?step (n * 10 + d) cs > 65535"
        using big foldl_decimal_mono [of "n * 10 + d" cs] by linarith
      ultimately show ?thesis by (simp add: d_def mult.commute)
    next
      case small: False
      then have le: "n * 10 + d \<le> 65535" by simp
      have "uintLoop 10 1844674407370955162 65535 (c # cs) n =
              uintLoop 10 1844674407370955162 65535 cs (n * 10 + d)"
        using dv d Cons.prems small m n1 by (simp add: Let_def)
      then show ?thesis
        using Cons.IH [OF le] True by (simp add: d_def mult.commute)
    qed
  qed
qed

lemma ParseUint_decimal16:
  "ParseUint s 10 16 = Inr v \<longleftrightarrow> isDecimal16 s \<and> v = decimalValue s"
proof (cases "s = []")
  case True
  then show ?thesis by (simp add: ParseUint_def isDecimal16_def)
next
  case False
  have "ParseUint s 10 16 = uintLoop 10 1844674407370955162 65535 s 0"
    using False by (simp add: ParseUint_def Let_def)
  then show ?thesis
    using False uintLoop_decimal16 [of 0 s v]
    by (auto simp: isDecimal16_def decimalValue_def)
qed

lemma ParseUint_isl: "isl (ParseUint s 10 16) \<longleftrightarrow> \<not> isDecimal16 s"
  using ParseUint_decimal16 [of s] by (cases "ParseUint s 10 16") auto

subsection \<open>Trimming\<close>

lemma stripPrefixes_Nil: "stripPrefixes ws [] = []"
proof -
  have "find (\<lambda>w. w \<noteq> [] \<and> take (length w) [] = w) ws = None"
    by (auto simp: find_None_iff)
  then show ?thesis by (simp add: stripPrefixes.simps [of ws "[]"])
qed

lemma find_space:
  assumes "w \<in> set unicodeSpaces"
  shows "find (\<lambda>v. v \<noteq> [] \<and> take (length v) (w @ s) = v) unicodeSpaces = Some w"
proof -
  from assms have "w \<in> set unicodeSpaces" .
  then show ?thesis
    unfolding unicodeSpaces_def
    apply (simp only: set_simps insert_iff empty_iff)
    apply (elim disjE FalseE)
    apply simp_all
    done
qed


lemma TrimLeft_space: "w \<in> set unicodeSpaces \<Longrightarrow> TrimLeft (w @ s) = TrimLeft s"
  using find_space [of w s]
  by (simp add: TrimLeft_def stripPrefixes.simps [of unicodeSpaces "w @ s"])

lemma TrimLeft_blank: "set ws \<subseteq> set unicodeSpaces \<Longrightarrow> TrimLeft (concat ws) = []"
proof (induction ws)
  case Nil
  then show ?case by (simp add: TrimLeft_def stripPrefixes_Nil)
next
  case (Cons w ws)
  then show ?case by (simp add: TrimLeft_space)
qed

lemma TrimSpace_blank: "set ws \<subseteq> set unicodeSpaces \<Longrightarrow> TrimSpace (concat ws) = []"
  by (simp add: TrimSpace_def TrimLeft_blank TrimRight_def stripPrefixes_Nil)

lemma stripPrefixes_keeps:
  "c \<notin> \<Union> (set ` set ws) \<Longrightarrow> c \<in> set s \<Longrightarrow> c \<in> set (stripPrefixes ws s)"
proof (induction ws s rule: stripPrefixes.induct)
  case (1 ws s)
  show ?case
  proof (cases "find (\<lambda>w. w \<noteq> [] \<and> take (length w) s = w) ws")
    case None
    then show ?thesis using "1.prems" by (simp add: stripPrefixes.simps [of ws s])
  next
    case (Some w)
    then have w: "w \<in> set ws" "take (length w) s = w"
      by (auto simp: find_Some_iff)
    have "set s = set (take (length w) s) \<union> set (drop (length w) s)"
      by (metis append_take_drop_id set_append)
    then have "c \<in> set (drop (length w) s)"
      using w "1.prems" by auto
    then have "c \<in> set (stripPrefixes ws (drop (length w) s))"
      using "1.IH" [OF Some] "1.prems" by simp
    then show ?thesis using Some by (simp add: stripPrefixes.simps [of ws s])
  qed
qed

lemma colon_not_space: "CHR '':'' \<notin> \<Union> (set ` set unicodeSpaces)"
  "CHR '':'' \<notin> \<Union> (set ` set (map rev unicodeSpaces))"
  by (simp_all add: unicodeSpaces_def)

lemma TrimSpace_keeps_colon: "CHR '':'' \<in> set s \<Longrightarrow> CHR '':'' \<in> set (TrimSpace s)"
  using stripPrefixes_keeps [OF colon_not_space(1), of s]
    stripPrefixes_keeps [OF colon_not_space(2), of "rev (TrimLeft s)"]
  by (simp add: TrimSpace_def TrimRight_def TrimLeft_def)

lemma TrimSpace_Nil: "TrimSpace [] = []"
  by (simp add: TrimSpace_def TrimRight_def TrimLeft_def stripPrefixes_Nil)

lemma Join_has_sep:
  assumes "2 \<le> length xs"
  shows "set sep \<subseteq> set (Join xs sep)"
proof (cases xs)
  case Nil
  then show ?thesis using assms by simp
next
  case (Cons e es)
  then show ?thesis using assms by (cases es) auto
qed

lemma ReplaceAll_keeps: "c \<noteq> old \<Longrightarrow> c \<in> set s \<Longrightarrow> c \<in> set (ReplaceAll s old new)"
  by (auto simp: ReplaceAll_def)

lemma colon_not_hex: "CHR '':'' \<in> set k \<Longrightarrow> isl (DecodeString k)"
proof -
  assume "CHR '':'' \<in> set k"
  moreover have "\<not> isHexDigit CHR '':''" by (simp add: isHexDigit_def)
  ultimately have "\<not> isHex k" by (auto simp: isHex_def list_all_iff)
  then show ?thesis using DecodeString_ok_iff by blast
qed

lemma parseItem_iff: "parseItem item = Inr n \<longleftrightarrow> validEntry item \<and> n = nodeOf item"
proof (cases "length (Split item CHR '':'') < 3")
  case True
  then show ?thesis by (simp add: parseItem_def validEntry_def)
next
  case False
  show ?thesis
  proof (cases "ParseUint (portField item) 10 16")
    case (Inl e)
    then have "\<not> isDecimal16 (portField item)"
      using ParseUint_isl [of "portField item"] by simp
    then show ?thesis using False Inl
      by (simp add: parseItem_def validEntry_def portField_def Let_def)
  next
    case (Inr v)
    then have v: "isDecimal16 (portField item)" "v = decimalValue (portField item)"
      using ParseUint_decimal16 by blast+
    show ?thesis
    proof (cases "DecodeString (keyField item)")
      case (Inl e)
      then have "\<not> isHex (keyField item)"
        using DecodeString_ok_iff [of "keyField item"] by simp
      then show ?thesis using False Inr Inl
        by (simp add: parseItem_def validEntry_def portField_def keyField_def Let_def)
    next
      case bs: (Inr bs)
      then have "isHex (keyField item)"
        using DecodeString_ok_iff [of "keyField item"] by simp
      then show ?thesis using False Inr bs v
        by (auto simp: parseItem_def validEntry_def nodeOf_def portField_def keyField_def
            hostField_def Let_def)
    qed
  qed
qed

lemma parseItem_isl: "isl (parseItem item) \<longleftrightarrow> \<not> validEntry item"
  using parseItem_iff [of item] by (cases "parseItem item") auto

lemma validEntry_Nil: "\<not> validEntry []"
  by (simp add: validEntry_def)

lemma parseLoop_nodes:
  "fst (parseLoop items out lg) = out @ map nodeOf (filter validEntry (map TrimSpace items))"
proof (induction items arbitrary: out lg)
  case Nil
  then show ?case by simp
next
  case (Cons item0 items)
  show ?case
  proof (cases "TrimSpace item0 = []")
    case True
    then show ?thesis using Cons.IH by (simp add: validEntry_Nil)
  next
    case False
    show ?thesis
    proof (cases "parseItem (TrimSpace item0)")
      case (Inl r)
      then have "\<not> validEntry (TrimSpace item0)"
        using parseItem_isl [of "TrimSpace item0"] by simp
      then show ?thesis using False Inl Cons.IH by (simp add: Let_def)
    next
      case (Inr n)
      then have "validEntry (TrimSpace item0)" "n = nodeOf (TrimSpace item0)"
        using parseItem_iff by blast+
      then show ?thesis using False Inr Cons.IH by (simp add: Let_def)
    qed
  qed
qed

lemma parseBootstrapEnv_nodes:
  "parseBootstrapEnv s = map nodeOf (filter validEntry (entries s))"
proof (cases "TrimSpace s = []")
  case True
  then show ?thesis
    by (simp add: parseBootstrapEnv_def parseBootstrapEnvLog_def entries_def TrimSpace_Nil
        validEntry_Nil)
next
  case False
  then show ?thesis
    by (simp add: parseBootstrapEnv_def parseBootstrapEnvLog_def entries_def parseLoop_nodes)
qed

lemma validEntry_port: "validEntry e \<Longrightarrow> unat (port (nodeOf e)) = decimalValue (portField e)"
  by (simp add: validEntry_def nodeOf_def isDecimal16_def unat_of_nat)

lemma many_segments_invalid:
  assumes "3 < length (Split item CHR '':'')"
  shows "\<not> validEntry item"
proof -
  have "CHR '':'' \<in> set (Join (drop 2 (Split item CHR '':'')) '':'')"
    using Join_has_sep [of "drop 2 (Split item CHR '':'')" "'':''"] assms by simp
  then have "CHR '':'' \<in> set (keyField item)"
    by (simp add: keyField_def TrimSpace_keeps_colon ReplaceAll_keeps)
  then have "\<not> isHex (keyField item)"
    using colon_not_hex DecodeString_ok_iff by blast
  then show ?thesis by (simp add: validEntry_def)
qed

lemma validEntry_key_no_colon: "validEntry e \<Longrightarrow> CHR '':'' \<notin> set (key (nodeOf e))"
  using colon_not_hex [of "keyField e"] DecodeString_ok_iff [of "keyField e"]
  by (auto simp: validEntry_def nodeOf_def)

subsection \<open>The claims about the parser\<close>

lemma ex_entries:
  "entries '' h : 80 : A B ,x:y:z,,q:70000:ab'' = [''h : 80 : A B'', ''x:y:z'', [], ''q:70000:ab'']"
  "entries ''a :1:ab'' = [''a :1:ab'']"
  "entries ''x:y:z, :1'' = [''x:y:z'', '':1'']"
  "entries ''h:80:AB'' = [''h:80:AB'']"
  by code_simp+

lemma ex_split:
  "Split ''h : 80 : A B'' CHR '':'' = [''h '', '' 80 '', '' A B'']"
  "Split ''x:y:z'' CHR '':'' = [''x'', ''y'', ''z'']"
  "Split [] CHR '':'' = [[]]"
  "Split ''q:70000:ab'' CHR '':'' = [''q'', ''70000'', ''ab'']"
  "Split ''a :1:ab'' CHR '':'' = [''a '', ''1'', ''ab'']"
  "Split '':1'' CHR '':'' = [[], ''1'']"
  "Split ''h:80:AB'' CHR '':'' = [''h'', ''80'', ''AB'']"
  "Split ''r:1:a:b'' CHR '':'' = [''r'', ''1'', ''a'', ''b'']"
  by code_simp+

lemma ex_fields:
  "hostField ''h : 80 : A B'' = ''h''" "portField ''h : 80 : A B'' = ''80''"
  "keyField ''h : 80 : A B'' = ''AB''"
  "portField ''x:y:z'' = ''y''" "portField ''q:70000:ab'' = ''70000''"
  "hostField ''a :1:ab'' = ''a''" "portField ''a :1:ab'' = ''1''" "keyField ''a :1:ab'' = ''ab''"
  "hostField ''h:80:AB'' = ''h''" "portField ''h:80:AB'' = ''80''" "keyField ''h:80:AB'' = ''AB''"
  by code_simp+

lemma ex_valid:
  "validEntry ''h : 80 : A B''" "\<not> validEntry ''x:y:z''" "\<not> validEntry ''q:70000:ab''"
  "validEntry ''a :1:ab''" "\<not> validEntry '':1''" "validEntry ''h:80:AB''"
  by (simp_all add: validEntry_def ex_split ex_fields isDecimal16_def isDigit_def
      decimalValue_def isHex_def isHexDigit_def)

lemma ex_node:
  "nodeOf ''h : 80 : A B'' = \<lparr>host = ''h'', port = 80, key = ''AB''\<rparr>"
  "nodeOf ''a :1:ab'' = \<lparr>host = ''a'', port = 1, key = ''ab''\<rparr>"
  "nodeOf ''h:80:AB'' = \<lparr>host = ''h'', port = 80, key = ''AB''\<rparr>"
  by (simp_all add: nodeOf_def ex_fields decimalValue_def)

text \<open>
  C3, as the code has it. For every input string the parser returns exactly the nodes of
  the valid comma-separated entries, in the order of the input; an invalid entry is left
  out and changes nothing for the others. The fields of an entry are read after
  trimming the white space around each of them: an entry is valid when it has at least
  three colon-separated fields, its trimmed port field is a decimal numeral of an
  unsigned 16-bit number, and its key (the remaining fields joined with colons, trimmed,
  spaces removed) is hexadecimal. The node carries the trimmed host field, the value
  of the port numeral, and that key.
\<close>

theorem parseBootstrapEnv_valid_entries:
  "parseBootstrapEnv s = map nodeOf (filter validEntry (entries s)) \<and>
   (\<forall>e\<in>set (filter validEntry (entries s)). unat (port (nodeOf e)) = decimalValue (portField e))"
  using parseBootstrapEnv_nodes [of s] validEntry_port by simp

theorem parseBootstrapEnv_valid_entries_witness:
  "parseBootstrapEnv '' h : 80 : A B ,x:y:z,,q:70000:ab'' = [\<lparr>host = ''h'', port = 80, key = ''AB''\<rparr>] \<and>
   unat (port (nodeOf ''h : 80 : A B'')) = 80"
  using parseBootstrapEnv_valid_entries [of "'' h : 80 : A B ,x:y:z,,q:70000:ab''"]
  by (simp add: ex_entries ex_valid ex_node validEntry_Nil ex_fields decimalValue_def)

text \<open>
  The host of the node is not the first field as it stands in the entry: for the entry
  \<open>a :1:ab\<close> the first field ends with a space and the host of the node does not.
\<close>

theorem parseBootstrapEnv_exact_host_counterexample:
  "parseBootstrapEnv ''a :1:ab'' = [\<lparr>host = ''a'', port = 1, key = ''ab''\<rparr>] \<and>
   Split ''a :1:ab'' CHR '':'' = [''a '', ''1'', ''ab''] \<and>
   host (hd (parseBootstrapEnv ''a :1:ab'')) \<noteq> hd (Split ''a :1:ab'' CHR '':'')"
  by (simp add: parseBootstrapEnv_nodes ex_entries ex_valid ex_node ex_split)

lemma rootBootstrapNodes_default:
  "(\<forall>e\<in>set (entries s). \<not> validEntry e) \<Longrightarrow> rootBootstrapNodes s = defaultBootstrap"
  by (simp add: rootBootstrapNodes_def parseBootstrapEnv_nodes filter_False)

lemma entries_blank: "TrimSpace s = [] \<Longrightarrow> entries s = [[]]"
  by (simp add: entries_def TrimSpace_Nil)

text \<open>
  C4. When the configuration string is empty, consists of white space only, or has no
  valid entry, the root command bootstraps against the built-in pair of nodes
  \<open>tox.abilinski.com:33445\<close> and \<open>144.217.167.73:33445\<close> with their fixed keys.
\<close>

theorem rootBootstrapNodes_fallback:
  assumes "s = [] \<or> (\<exists>ws. set ws \<subseteq> set unicodeSpaces \<and> s = concat ws) \<or>
           (\<forall>e\<in>set (entries s). \<not> validEntry e)"
  shows "rootBootstrapNodes s = defaultBootstrap \<and>
         rootBootstrapNodes s =
           [\<lparr>host = ''tox.abilinski.com'', port = 33445,
              key = ''10C00EB250C3233E343E2AEBA07115A5C28920E9C8D29492F6D00B29049EDC7E''\<rparr>,
            \<lparr>host = ''144.217.167.73'', port = 33445,
              key = ''7E5668E0EE09E19F320AD47902419331FFEE147BB3606769CFBE921A2A2FD34C''\<rparr>]"
proof -
  have "\<forall>e\<in>set (entries s). \<not> validEntry e"
    using assms
  proof (elim disjE exE conjE)
    assume "s = []"
    then show ?thesis by (simp add: entries_blank TrimSpace_Nil validEntry_Nil)
  next
    fix ws assume "set ws \<subseteq> set unicodeSpaces" "s = concat ws"
    then show ?thesis by (simp add: entries_blank TrimSpace_blank validEntry_Nil)
  qed
  then have "rootBootstrapNodes s = defaultBootstrap"
    by (rule rootBootstrapNodes_default)
  then show ?thesis by (simp add: defaultBootstrap_def)
qed

lemma blank_example: "set [[CHR 0x20], [CHR 0x09], [CHR 0xC2, CHR 0xA0]] \<subseteq> set unicodeSpaces"
  by (simp add: unicodeSpaces_def)

theorem rootBootstrapNodes_fallback_witness:
  "rootBootstrapNodes [] = defaultBootstrap \<and>
   rootBootstrapNodes [CHR 0x20, CHR 0x09, CHR 0xC2, CHR 0xA0] = defaultBootstrap \<and>
   rootBootstrapNodes ''x:y:z, :1'' = defaultBootstrap"
proof -
  have a: "\<exists>ws. set ws \<subseteq> set unicodeSpaces \<and> [CHR 0x20, CHR 0x09, CHR 0xC2, CHR 0xA0] = concat ws"
    using blank_example by (intro exI [of _ "[[CHR 0x20], [CHR 0x09], [CHR 0xC2, CHR 0xA0]]"]) simp
  have b: "\<forall>e\<in>set (entries ''x:y:z, :1''). \<not> validEntry e"
    by (simp add: ex_entries ex_valid)
  show ?thesis
    using rootBootstrapNodes_fallback [of "[]"]
      rootBootstrapNodes_fallback [of "[CHR 0x20, CHR 0x09, CHR 0xC2, CHR 0xA0]"]
      rootBootstrapNodes_fallback [of "''x:y:z, :1''"] a b
    by simp
qed

lemma default_keys_hex:
  "isHex ''10C00EB250C3233E343E2AEBA07115A5C28920E9C8D29492F6D00B29049EDC7E''"
  "isHex ''7E5668E0EE09E19F320AD47902419331FFEE147BB3606769CFBE921A2A2FD34C''"
  by (simp_all add: isHex_def isHexDigit_def)

lemma cmdBootstrapAttempts_fixed: "cmdBootstrapAttempts env = defaultBootstrap"
  using default_keys_hex
  by (simp add: cmdBootstrapAttempts_def bootstrapNodes_def defaultBootstrap_def DecodeString_ok_iff)

lemma rootBootstrapAttempts_example:
  "rootBootstrapAttempts ''h:80:AB'' = [\<lparr>host = ''h'', port = 80, key = ''AB''\<rparr>]"
  by (simp add: rootBootstrapAttempts_def rootBootstrapNodes_def parseBootstrapEnv_nodes
      ex_entries ex_valid ex_node)

text \<open>
  C9, on the code. The command under \<open>cmd/toxcbt\<close> attempts the built-in pair whatever
  \<open>TOX_BOOTSTRAP_NODES\<close> holds, while the root command attempts the nodes the variable
  lists: for the value \<open>h:80:AB\<close> the two commands bootstrap against different nodes.
\<close>

theorem entry_points_differ:
  "cmdBootstrapAttempts env = defaultBootstrap \<and>
   rootBootstrapAttempts ''h:80:AB'' = [\<lparr>host = ''h'', port = 80, key = ''AB''\<rparr>] \<and>
   rootBootstrapAttempts ''h:80:AB'' \<noteq> cmdBootstrapAttempts ''h:80:AB''"
  by (simp add: cmdBootstrapAttempts_fixed rootBootstrapAttempts_example defaultBootstrap_def)

text \<open>
  C10. An entry with more than three colon-separated segments is rejected: the segments
  after the second, joined with colons again, contain a colon; trimming and removing
  spaces keep that colon; a string with a colon in it does not decode as hexadecimal.
  Such an entry adds nothing to the result, and no node the parser returns has a colon
  in its key.
\<close>

theorem colon_key_rejected:
  "(3 < length (Split item CHR '':'') \<longrightarrow>
      CHR '':'' \<in> set (Join (drop 2 (Split item CHR '':'')) '':'') \<and> isl (parseItem item)) \<and>
   (3 < length (Split (TrimSpace item0) CHR '':'') \<longrightarrow>
      fst (parseLoop (item0 # items) out lg) = fst (parseLoop items out lg)) \<and>
   (CHR '':'' \<in> set k \<longrightarrow>
      CHR '':'' \<in> set (ReplaceAll (TrimSpace k) CHR '' '' []) \<and> isl (DecodeString k)) \<and>
   (\<forall>n\<in>set (parseBootstrapEnv s). CHR '':'' \<notin> set (key n))"
proof (intro conjI impI ballI)
  assume "3 < length (Split item CHR '':'')"
  then show "CHR '':'' \<in> set (Join (drop 2 (Split item CHR '':'')) '':'')"
    using Join_has_sep [of "drop 2 (Split item CHR '':'')" "'':''"] by simp
next
  assume "3 < length (Split item CHR '':'')"
  then show "isl (parseItem item)"
    by (simp add: parseItem_isl many_segments_invalid)
next
  assume "3 < length (Split (TrimSpace item0) CHR '':'')"
  then have "\<not> validEntry (TrimSpace item0)"
    by (rule many_segments_invalid)
  then have "map nodeOf (filter validEntry (map TrimSpace (item0 # items))) =
             map nodeOf (filter validEntry (map TrimSpace items))"
    by simp
  then show "fst (parseLoop (item0 # items) out lg) = fst (parseLoop items out lg)"
    by (simp only: parseLoop_nodes)
next
  assume "CHR '':'' \<in> set k"
  then show "CHR '':'' \<in> set (ReplaceAll (TrimSpace k) CHR '' '' [])"
    by (simp add: TrimSpace_keeps_colon ReplaceAll_keeps)
next
  assume "CHR '':'' \<in> set k"
  then show "isl (DecodeString k)"
    by (rule colon_not_hex)
next
  fix n assume "n \<in> set (parseBootstrapEnv s)"
  then obtain e where "validEntry e" "n = nodeOf e"
    by (auto simp: parseBootstrapEnv_nodes)
  then show "CHR '':'' \<notin> set (key n)"
    by (simp add: validEntry_key_no_colon)
qed

lemma ex_colon:
  "entries ''h:80:AB, r:1:a:b'' = [''h:80:AB'', ''r:1:a:b'']"
  "TrimSpace '' r:1:a:b'' = ''r:1:a:b''"
  by code_simp+

theorem colon_key_rejected_witness:
  "isl (parseItem ''r:1:a:b'') \<and>
   CHR '':'' \<in> set (Join (drop 2 (Split ''r:1:a:b'' CHR '':'')) '':'') \<and>
   fst (parseLoop [ '' r:1:a:b''] [] []) = [] \<and>
   isl (DecodeString ''a:b'') \<and>
   parseBootstrapEnv ''h:80:AB, r:1:a:b'' = [\<lparr>host = ''h'', port = 80, key = ''AB''\<rparr>]"
proof -
  note t = colon_key_rejected [where item = "''r:1:a:b''" and ?item0.0 = "'' r:1:a:b''"
        and items = "[]" and out = "[]" and lg = "[]" and k = "''a:b''"
        and s = "''h:80:AB, r:1:a:b''"]
  have seg: "3 < length (Split ''r:1:a:b'' CHR '':'')"
    by (simp add: ex_split)
  have seg0: "3 < length (Split (TrimSpace '' r:1:a:b'') CHR '':'')"
    by (simp add: ex_split ex_colon)
  have k: "CHR '':'' \<in> set ''a:b''"
    by simp
  have a: "isl (parseItem ''r:1:a:b'')"
    and b: "CHR '':'' \<in> set (Join (drop 2 (Split ''r:1:a:b'' CHR '':'')) '':'')"
    using t seg by blast+
  have "fst (parseLoop [ '' r:1:a:b''] [] []) = fst (parseLoop [] [] [])"
    using t seg0 by blast
  then have c: "fst (parseLoop [ '' r:1:a:b''] [] []) = []"
    by (simp only: parseLoop.simps fst_conv)
  have d: "isl (DecodeString ''a:b'')"
    using t k by blast
  have e: "parseBootstrapEnv ''h:80:AB, r:1:a:b'' = [\<lparr>host = ''h'', port = 80, key = ''AB''\<rparr>]"
    using many_segments_invalid [of "''r:1:a:b''"]
    by (simp add: parseBootstrapEnv_nodes ex_colon ex_valid ex_node ex_split)
  show ?thesis
    using a b c d e by blast
qed

end
